theory Spec2Isabelle
  imports Complex_Main "HOL-Library.Multiset"
begin

section \<open>The small-file benchmark (benchmark.py)\<close>

text \<open>
  The program generates a list of identifiers, stores one random array per identifier
  under one of four layouts, and reads the arrays back in a shuffled order. Everything it
  does goes through library calls (\<^verbatim>\<open>numpy\<close>, \<^verbatim>\<open>pathlib\<close>, \<^verbatim>\<open>uuid\<close>); the model makes
  their effects explicit:
  \<^item> the file system is a set of directories and a map from path names to file contents;
  \<^item> the global random generator of \<^verbatim>\<open>np.random\<close> is a component of the program state;
  \<^item> an exception is a value \<open>Inl (e, st)\<close>, where \<open>st\<close> is the state at the moment of the
    raise (nothing is rolled back), and a normal return is \<open>Inr\<close>;
  \<^item> the generator itself, the cast to 32-bit floats, \<^verbatim>\<open>uuid.uuid4\<close> and \<^verbatim>\<open>eval\<close> are
    parameters, collected in the record \<open>lib\<close>.
  Uniform draws are real numbers and the arithmetic on them is exact: the rounding of
  double precision is not modelled.
\<close>

subsection \<open>Data\<close>

datatype error =
  AssertionError | FileNotFoundError | IndexError | ValueError | TypeError | SyntaxError

text \<open>
  What a file holds: an array of strings or a one-dimensional array of floats written by
  \<^verbatim>\<open>np.save\<close>, or the raw values of a memory-mapped block (which has no header, hence
  no stored shape).
\<close>

datatype content = StrArr "string list" | FloatArr "real list" | Raw "real list"

text \<open>
  The operations the program performs on a memory mapping, in the order performed.
  \<open>MmClose\<close> is an explicit release of the mapping (closing it, or deleting the array);
  what the runtime does with an array that is no longer referenced, or at the end of the
  process, is not an operation of the program and is not recorded.
\<close>

datatype mm_op = MmOpen string | MmSetRow nat | MmGetRow nat | MmFlush | MmClose

record 'g state =
  rng :: 'g
  dirs :: "string set"
  files :: "string \<rightharpoonup> content"
  mm_log :: "mm_op list"

datatype pyval = PyInt int | PyFloat real | PyOther

text \<open>
  The library parameters: \<open>seed s\<close> is the generator state after \<^verbatim>\<open>np.random.seed(s)\<close>;
  \<open>random_sample\<close> is one uniform draw; \<open>rk_interval m\<close> is the bounded integer draw in
  \<open>[0, m]\<close> that \<^verbatim>\<open>np.random.shuffle\<close> uses; \<open>float32\<close> is the cast of
  \<^verbatim>\<open>astype(np.float32)\<close>; \<open>uuid4_hex k\<close> is the result of the \<open>k\<close>-th call of
  \<^verbatim>\<open>uuid.uuid4().hex\<close>; \<open>py_eval\<close> is \<^verbatim>\<open>eval\<close>.
\<close>

record 'g lib =
  seed :: "nat \<Rightarrow> 'g"
  random_sample :: "'g \<Rightarrow> real \<times> 'g"
  rk_interval :: "nat \<Rightarrow> 'g \<Rightarrow> nat \<times> 'g"
  float32 :: "real \<Rightarrow> real"
  uuid4_hex :: "nat \<Rightarrow> string"
  py_eval :: "string \<Rightarrow> error + pyval"

type_synonym 'g result = "(error \<times> 'g state) + 'g state"

subsection \<open>Path names and directories\<close>

text \<open>The directory part of a path name: everything before the last slash.\<close>

definition dirname :: "string \<Rightarrow> string" where
  "dirname p = rev (tl (dropWhile (\<lambda>c. c \<noteq> CHR ''/'') (rev p)))"

text \<open>A path name with all its ancestors, \<^verbatim>\<open>a\<close>, \<^verbatim>\<open>a/b\<close>, \<^verbatim>\<open>a/b/c\<close>.\<close>

definition ancestors :: "string \<Rightarrow> string list" where
  "ancestors p = map (\<lambda>k. take k p) (filter (\<lambda>k. p ! k = CHR ''/'') [0..<length p]) @ [p]"

definition has_parent :: "'g state \<Rightarrow> string \<Rightarrow> bool" where
  "has_parent st p \<longleftrightarrow> dirname p = [] \<or> dirname p \<in> dirs st"

text \<open>
  \<^verbatim>\<open>Path(p).mkdir(exist_ok=True)\<close>: nothing to do when the directory exists, an error
  when its parent does not. Regular files and directories are kept apart: a file in the
  place of a directory is not modelled.
\<close>

definition mkdir :: "string \<Rightarrow> 'g state \<Rightarrow> 'g result" where
  "mkdir p st =
     (if p \<in> dirs st then Inr st
      else if \<not> has_parent st p then Inl (FileNotFoundError, st)
      else Inr (st\<lparr>dirs := insert p (dirs st)\<rparr>))"

text \<open>\<^verbatim>\<open>Path(p).mkdir(exist_ok=True, parents=True)\<close> creates the missing ancestors too.\<close>

definition mkdir_parents :: "string \<Rightarrow> 'g state \<Rightarrow> 'g result" where
  "mkdir_parents p st = Inr (st\<lparr>dirs := dirs st \<union> set (ancestors p)\<rparr>)"

fun mkdir_each :: "(string \<Rightarrow> 'g state \<Rightarrow> 'g result) \<Rightarrow> string list \<Rightarrow> 'g state \<Rightarrow> 'g result" where
  "mkdir_each mk [] st = Inr st"
| "mkdir_each mk (p # ps) st =
     (case mk p st of Inl e \<Rightarrow> Inl e | Inr st' \<Rightarrow> mkdir_each mk ps st')"

subsection \<open>Saving and loading arrays\<close>

definition np_save :: "string \<Rightarrow> content \<Rightarrow> 'g state \<Rightarrow> 'g result" where
  "np_save p c st =
     (if has_parent st p then Inr (st\<lparr>files := (files st)(p \<mapsto> c)\<rparr>)
      else Inl (FileNotFoundError, st))"

text \<open>\<^verbatim>\<open>np.load\<close> reads what \<^verbatim>\<open>np.save\<close> wrote; a raw block is not in that format.\<close>

definition np_load :: "string \<Rightarrow> 'g state \<Rightarrow> error + content" where
  "np_load p st =
     (case files st p of
        None \<Rightarrow> Inl FileNotFoundError
      | Some (Raw b) \<Rightarrow> Inl ValueError
      | Some c \<Rightarrow> Inr c)"

definition filelist_path :: string where
  "filelist_path = ''cache/filelist.npy''"

text \<open>
  \<^verbatim>\<open>files = np.load("cache/filelist.npy")\<close>, used as the sequence of its strings. The
  file is written by \<open>create_filelist\<close> only; an array of floats under that name is
  outside the model.
\<close>

definition load_filelist :: "'g state \<Rightarrow> error + string list" where
  "load_filelist st =
     (case np_load filelist_path st of
        Inl e \<Rightarrow> Inl e
      | Inr (StrArr ids) \<Rightarrow> Inr ids
      | Inr c \<Rightarrow> Inl TypeError)"

subsection \<open>The identifier list\<close>

text \<open>
  \<^verbatim>\<open>create_filelist(n)\<close>: \<^verbatim>\<open>range(n)\<close> is empty for \<open>n \<le> 0\<close>; the list is saved, loaded
  again, and its length compared with \<open>n\<close> by an \<^verbatim>\<open>assert\<close>.
\<close>

definition create_filelist :: "'g lib \<Rightarrow> int \<Rightarrow> 'g state \<Rightarrow> 'g result" where
  "create_filelist L n st =
     (case np_save filelist_path (StrArr (map (uuid4_hex L) [0..<nat n])) st of
        Inl e \<Rightarrow> Inl e
      | Inr st1 \<Rightarrow>
          (case load_filelist st1 of
             Inl e \<Rightarrow> Inl (e, st1)
           | Inr ids \<Rightarrow>
               if int (length ids) = n then Inr st1 else Inl (AssertionError, st1)))"

subsection \<open>Random arrays\<close>

text \<open>\<^verbatim>\<open>int(x)\<close> on a float truncates towards zero.\<close>

definition py_int :: "real \<Rightarrow> int" where
  "py_int x = (if 0 \<le> x then \<lfloor>x\<rfloor> else \<lceil>x\<rceil>)"

text \<open>\<^verbatim>\<open>np.random.random(n)\<close>: \<open>n\<close> consecutive draws.\<close>

fun random_n :: "'g lib \<Rightarrow> nat \<Rightarrow> 'g \<Rightarrow> real list \<times> 'g" where
  "random_n L 0 g = ([], g)"
| "random_n L (Suc n) g =
     (let (x, g1) = random_sample L g; (xs, g2) = random_n L n g1 in (x # xs, g2))"

text \<open>
  The array expression of the three per-file layouts,
  \<^verbatim>\<open>np.random.random(int(10 + np.random.random() * 5 * size)).astype(np.float32)\<close>:
  the length is drawn first; a negative length is a \<^verbatim>\<open>ValueError\<close>.
\<close>

definition random_array :: "'g lib \<Rightarrow> int \<Rightarrow> 'g \<Rightarrow> (error \<times> 'g) + (real list \<times> 'g)" where
  "random_array L sz g =
     (let (u, g1) = random_sample L g;
          n = py_int (10 + u * 5 * real_of_int sz)
      in if n < 0 then Inl (ValueError, g1)
         else (let (xs, g2) = random_n L (nat n) g1 in Inr (map (float32 L) xs, g2)))"

text \<open>\<^verbatim>\<open>np.random.random(size).astype(np.float32)\<close>, one row of the block.\<close>

definition random_row :: "'g lib \<Rightarrow> int \<Rightarrow> 'g \<Rightarrow> (error \<times> 'g) + (real list \<times> 'g)" where
  "random_row L sz g =
     (if sz < 0 then Inl (ValueError, g)
      else (let (xs, g1) = random_n L (nat sz) g in Inr (map (float32 L) xs, g1)))"

subsection \<open>Where each layout puts an identifier\<close>

text \<open>\<^verbatim>\<open>name[-k]\<close> for \<open>k \<ge> 1\<close>, and \<^verbatim>\<open>name[-3:]\<close>.\<close>

definition from_end :: "string \<Rightarrow> nat \<Rightarrow> error + char" where
  "from_end name k =
     (if k \<le> length name then Inr (name ! (length name - k)) else Inl IndexError)"

definition last3 :: "string \<Rightarrow> string" where
  "last3 name = drop (length name - 3) name"

text \<open>Line 42 (create) and line 108 (test).\<close>

definition create_path_flat :: "string \<Rightarrow> error + string" where
  "create_path_flat name = Inr (''cache/flat/'' @ name @ ''.npy'')"

definition test_path_flat :: "string \<Rightarrow> error + string" where
  "test_path_flat name = Inr (''cache/flat/'' @ name @ ''.npy'')"

text \<open>Line 57 (create) and line 127 (test).\<close>

definition create_path_two_level :: "string \<Rightarrow> error + string" where
  "create_path_two_level name = Inr (''cache/2level/'' @ last3 name @ ''/'' @ name @ ''.npy'')"

definition test_path_two_level :: "string \<Rightarrow> error + string" where
  "test_path_two_level name = Inr (''cache/2level/'' @ last3 name @ ''/'' @ name @ ''.npy'')"

text \<open>Line 75 (create) and lines 149 to 150 (test, two adjacent literals).\<close>

definition create_path_four_level :: "string \<Rightarrow> error + string" where
  "create_path_four_level name =
     (case from_end name 1 of Inl e \<Rightarrow> Inl e | Inr a \<Rightarrow>
       (case from_end name 2 of Inl e \<Rightarrow> Inl e | Inr b \<Rightarrow>
         (case from_end name 3 of Inl e \<Rightarrow> Inl e | Inr c \<Rightarrow>
            Inr (''cache/4level/'' @ [a] @ ''/'' @ [b] @ ''/'' @ [c] @ ''/'' @ name @ ''.npy''))))"

definition test_path_four_level :: "string \<Rightarrow> error + string" where
  "test_path_four_level name =
     (case from_end name 1 of Inl e \<Rightarrow> Inl e | Inr a \<Rightarrow>
       (case from_end name 2 of Inl e \<Rightarrow> Inl e | Inr b \<Rightarrow>
         (case from_end name 3 of Inl e \<Rightarrow> Inl e | Inr c \<Rightarrow>
            Inr ((''cache/4level/'' @ [a] @ ''/'') @ ([b] @ ''/'' @ [c] @ ''/'' @ name @ ''.npy'')))))"

definition memmap_path :: string where
  "memmap_path = ''cache/memmap/arr.npy''"

subsection \<open>Hexadecimal bucket names\<close>

definition hexdigit :: "nat \<Rightarrow> char" where
  "hexdigit d = ''0123456789abcdef'' ! d"

text \<open>\<^verbatim>\<open>format(i, "x")\<close>\<close>

function hex :: "nat \<Rightarrow> string" where
  "hex n = (if n < 16 then [hexdigit n] else hex (n div 16) @ [hexdigit (n mod 16)])"
  by pat_completeness auto
termination
  by (relation "measure (\<lambda>n. n)") auto

declare hex.simps [simp del]

text \<open>\<^verbatim>\<open>"%03x" % i\<close>\<close>

definition hex03 :: "nat \<Rightarrow> string" where
  "hex03 i = replicate (3 - length (hex i)) CHR ''0'' @ hex i"

definition two_level_dirs :: "string list" where
  "two_level_dirs = map (\<lambda>i. ''cache/2level/'' @ hex03 i) [0..<16 ^ 3]"

definition four_level_dirs :: "string list" where
  "four_level_dirs =
     concat (map (\<lambda>i. concat (map (\<lambda>j. map (\<lambda>k.
       ''cache/4level/'' @ hex i @ ''/'' @ hex j @ ''/'' @ hex k) [0..<16]) [0..<16])) [0..<16])"

subsection \<open>The create phase\<close>

text \<open>
  The loop \<^verbatim>\<open>for name in tqdm(files): np.save(<path>, <array>)\<close>, which the three
  per-file layouts share up to the path expression. The path is evaluated before the
  array, the array before the write.
\<close>

fun create_loop :: "'g lib \<Rightarrow> (string \<Rightarrow> error + string) \<Rightarrow> int \<Rightarrow> string list \<Rightarrow> 'g state \<Rightarrow> 'g result" where
  "create_loop L pth sz [] st = Inr st"
| "create_loop L pth sz (name # names) st =
     (case pth name of
        Inl e \<Rightarrow> Inl (e, st)
      | Inr p \<Rightarrow>
          (case random_array L sz (rng st) of
             Inl (e, g) \<Rightarrow> Inl (e, st\<lparr>rng := g\<rparr>)
           | Inr (arr, g) \<Rightarrow>
               (case np_save p (FloatArr arr) (st\<lparr>rng := g\<rparr>) of
                  Inl e \<Rightarrow> Inl e
                | Inr st' \<Rightarrow> create_loop L pth sz names st')))"

definition create_files_flat :: "'g lib \<Rightarrow> int \<Rightarrow> 'g state \<Rightarrow> 'g result" where
  "create_files_flat L sz st =
     (case mkdir ''cache/flat'' st of
        Inl e \<Rightarrow> Inl e
      | Inr st1 \<Rightarrow>
          (case load_filelist st1 of
             Inl e \<Rightarrow> Inl (e, st1)
           | Inr ids \<Rightarrow> create_loop L create_path_flat sz ids (st1\<lparr>rng := seed L 515\<rparr>)))"

definition create_files_two_level :: "'g lib \<Rightarrow> int \<Rightarrow> 'g state \<Rightarrow> 'g result" where
  "create_files_two_level L sz st =
     (case mkdir ''cache/2level'' st of
        Inl e \<Rightarrow> Inl e
      | Inr st1 \<Rightarrow>
          (case load_filelist st1 of
             Inl e \<Rightarrow> Inl (e, st1)
           | Inr ids \<Rightarrow>
               (case mkdir_each mkdir two_level_dirs st1 of
                  Inl e \<Rightarrow> Inl e
                | Inr st2 \<Rightarrow>
                    create_loop L create_path_two_level sz ids (st2\<lparr>rng := seed L 515\<rparr>))))"

definition create_files_four_level :: "'g lib \<Rightarrow> int \<Rightarrow> 'g state \<Rightarrow> 'g result" where
  "create_files_four_level L sz st =
     (case mkdir ''cache/4level'' st of
        Inl e \<Rightarrow> Inl e
      | Inr st1 \<Rightarrow>
          (case load_filelist st1 of
             Inl e \<Rightarrow> Inl (e, st1)
           | Inr ids \<Rightarrow>
               (case mkdir_each mkdir_parents four_level_dirs st1 of
                  Inl e \<Rightarrow> Inl e
                | Inr st2 \<Rightarrow>
                    create_loop L create_path_four_level sz ids (st2\<lparr>rng := seed L 515\<rparr>))))"

subsection \<open>The memory-mapped block\<close>

text \<open>
  \<^verbatim>\<open>np.memmap(p, mode="w+", dtype="float32", shape=(n, size))\<close>: the file is created or
  truncated and extended with zeros to \<open>n * size\<close> values. An empty or negative extent
  cannot be mapped; the file has been truncated by then.
\<close>

definition memmap_open_w :: "string \<Rightarrow> nat \<Rightarrow> int \<Rightarrow> 'g state \<Rightarrow> 'g result" where
  "memmap_open_w p n sz st =
     (if \<not> has_parent st p then Inl (FileNotFoundError, st)
      else if int n * sz \<le> 0 then Inl (ValueError, st\<lparr>files := (files st)(p \<mapsto> Raw [])\<rparr>)
      else Inr (st\<lparr>files := (files st)(p \<mapsto> Raw (replicate (n * nat sz) 0)),
                   mm_log := mm_log st @ [MmOpen ''w+'']\<rparr>))"

text \<open>
  \<^verbatim>\<open>np.memmap(p, mode="r", dtype="float32", shape=(n, size))\<close>: the first \<open>n * size\<close>
  values of the file are mapped. The only check is that the file is long enough (and not
  empty). A file under that name that is not a raw block is outside the model.
\<close>

definition memmap_open_r :: "string \<Rightarrow> nat \<Rightarrow> int \<Rightarrow> 'g state \<Rightarrow> 'g result" where
  "memmap_open_r p n sz st =
     (case files st p of
        None \<Rightarrow> Inl (FileNotFoundError, st)
      | Some (Raw blk) \<Rightarrow>
          if sz < 0 \<or> blk = [] \<or> length blk < n * nat sz then Inl (ValueError, st)
          else Inr (st\<lparr>mm_log := mm_log st @ [MmOpen ''r'']\<rparr>)
      | Some c \<Rightarrow> Inl (ValueError, st))"

text \<open>The values the mapping views, and its rows \<^verbatim>\<open>arr[i]\<close> for rows of \<open>w\<close> values.\<close>

definition mm_block :: "'g state \<Rightarrow> real list" where
  "mm_block st = (case files st memmap_path of Some (Raw blk) \<Rightarrow> blk | _ \<Rightarrow> [])"

definition get_row :: "nat \<Rightarrow> nat \<Rightarrow> real list \<Rightarrow> real list" where
  "get_row w i blk = take w (drop (i * w) blk)"

definition set_row :: "nat \<Rightarrow> nat \<Rightarrow> real list \<Rightarrow> real list \<Rightarrow> real list" where
  "set_row w i row blk = take (i * w) blk @ row @ drop (i * w + w) blk"

text \<open>\<^verbatim>\<open>for i in tqdm(range(files.shape[0])): arr[i] = <row>\<close>\<close>

fun memmap_fill :: "'g lib \<Rightarrow> int \<Rightarrow> nat list \<Rightarrow> 'g state \<Rightarrow> 'g result" where
  "memmap_fill L sz [] st = Inr st"
| "memmap_fill L sz (i # is) st =
     (case random_row L sz (rng st) of
        Inl (e, g) \<Rightarrow> Inl (e, st\<lparr>rng := g\<rparr>)
      | Inr (row, g) \<Rightarrow>
          memmap_fill L sz is
            (st\<lparr>rng := g,
                files := (files st)(memmap_path \<mapsto> Raw (set_row (nat sz) i row (mm_block st))),
                mm_log := mm_log st @ [MmSetRow i]\<rparr>))"

definition create_files_memmap :: "'g lib \<Rightarrow> int \<Rightarrow> 'g state \<Rightarrow> 'g result" where
  "create_files_memmap L sz st =
     (case mkdir ''cache/memmap'' st of
        Inl e \<Rightarrow> Inl e
      | Inr st1 \<Rightarrow>
          (case load_filelist st1 of
             Inl e \<Rightarrow> Inl (e, st1)
           | Inr ids \<Rightarrow>
               (case memmap_open_w memmap_path (length ids) sz st1 of
                  Inl e \<Rightarrow> Inl e
                | Inr st2 \<Rightarrow>
                    (case memmap_fill L sz [0..<length ids] (st2\<lparr>rng := seed L 515\<rparr>) of
                       Inl e \<Rightarrow> Inl e
                     | Inr st3 \<Rightarrow> Inr (st3\<lparr>mm_log := mm_log st3 @ [MmFlush]\<rparr>)))))"

subsection \<open>The test phase\<close>

text \<open>
  \<^verbatim>\<open>np.random.shuffle\<close>: for \<open>i\<close> from \<open>n - 1\<close> down to \<open>1\<close>, draw \<open>j\<close> in \<open>[0, i]\<close> and
  exchange the elements at \<open>i\<close> and \<open>j\<close>.
\<close>

definition swap :: "nat \<Rightarrow> nat \<Rightarrow> 'a list \<Rightarrow> 'a list" where
  "swap i j xs = xs[i := xs ! j, j := xs ! i]"

fun shuffle_from :: "'g lib \<Rightarrow> nat \<Rightarrow> 'a list \<Rightarrow> 'g \<Rightarrow> 'a list \<times> 'g" where
  "shuffle_from L 0 xs g = (xs, g)"
| "shuffle_from L (Suc i) xs g =
     (let (j, g1) = rk_interval L (Suc i) g in shuffle_from L i (swap (Suc i) j xs) g1)"

definition np_shuffle :: "'g lib \<Rightarrow> 'a list \<Rightarrow> 'g \<Rightarrow> 'a list \<times> 'g" where
  "np_shuffle L xs g = shuffle_from L (length xs - 1) xs g"

text \<open>\<^verbatim>\<open>np.mean\<close> of an array; of an empty array it is \<^verbatim>\<open>nan\<close>, here \<open>None\<close>.\<close>

definition np_mean :: "real list \<Rightarrow> real option" where
  "np_mean xs = (if xs = [] then None else Some (sum_list xs / real (length xs)))"

text \<open>
  \<^verbatim>\<open>print(np.max(means), np.mean(means), np.min(means))\<close>: the three numbers printed.
  \<^verbatim>\<open>np.max\<close> of an empty list raises; a \<^verbatim>\<open>nan\<close> among the means makes all three
  \<^verbatim>\<open>nan\<close>. The elapsed time is not part of the model.
\<close>

type_synonym report = "real option \<times> real option \<times> real option"

definition summary :: "real option list \<Rightarrow> error + report" where
  "summary means =
     (if means = [] then Inl ValueError
      else (case those means of
              None \<Rightarrow> Inr (None, None, None)
            | Some ms \<Rightarrow>
                Inr (Some (Max (set ms)), Some (sum_list ms / real (length ms)),
                     Some (Min (set ms)))))"

text \<open>
  \<^verbatim>\<open>for name in tqdm(files): means.append(np.mean(np.load(<path>)))\<close>, shared by the
  three per-file layouts up to the path expression.
\<close>

fun test_loop :: "(string \<Rightarrow> error + string) \<Rightarrow> string list \<Rightarrow> 'g state \<Rightarrow> real option list \<Rightarrow> error + real option list" where
  "test_loop pth [] st means = Inr means"
| "test_loop pth (name # names) st means =
     (case pth name of
        Inl e \<Rightarrow> Inl e
      | Inr p \<Rightarrow>
          (case np_load p st of
             Inl e \<Rightarrow> Inl e
           | Inr (FloatArr arr) \<Rightarrow> test_loop pth names st (means @ [np_mean arr])
           | Inr c \<Rightarrow> Inl TypeError))"

type_synonym 'g tested = "(error \<times> 'g state) + (report \<times> 'g state)"

definition test_files :: "'g lib \<Rightarrow> (string \<Rightarrow> error + string) \<Rightarrow> 'g state \<Rightarrow> 'g tested" where
  "test_files L pth st =
     (case load_filelist st of
        Inl e \<Rightarrow> Inl (e, st)
      | Inr ids \<Rightarrow>
          (let (names, g) = np_shuffle L ids (seed L 515); st1 = st\<lparr>rng := g\<rparr>
           in case test_loop pth names st1 [] of
                Inl e \<Rightarrow> Inl (e, st1)
              | Inr means \<Rightarrow>
                  (case summary means of
                     Inl e \<Rightarrow> Inl (e, st1)
                   | Inr r \<Rightarrow> Inr (r, st1))))"

text \<open>The three functions do not use their argument \<^verbatim>\<open>size\<close>.\<close>

definition test_flat :: "'g lib \<Rightarrow> int \<Rightarrow> 'g state \<Rightarrow> 'g tested" where
  "test_flat L sz st = test_files L test_path_flat st"

definition test_two_level :: "'g lib \<Rightarrow> int \<Rightarrow> 'g state \<Rightarrow> 'g tested" where
  "test_two_level L sz st = test_files L test_path_two_level st"

definition test_four_level :: "'g lib \<Rightarrow> int \<Rightarrow> 'g state \<Rightarrow> 'g tested" where
  "test_four_level L sz st = test_files L test_path_four_level st"

text \<open>\<^verbatim>\<open>for i in tqdm(idx): means.append(np.mean(arr[i]))\<close>\<close>

fun memmap_loop :: "nat \<Rightarrow> nat list \<Rightarrow> 'g state \<Rightarrow> real option list \<Rightarrow> real option list \<times> 'g state" where
  "memmap_loop w [] st means = (means, st)"
| "memmap_loop w (i # is) st means =
     memmap_loop w is (st\<lparr>mm_log := mm_log st @ [MmGetRow i]\<rparr>)
       (means @ [np_mean (get_row w i (mm_block st))])"

definition test_memmap :: "'g lib \<Rightarrow> int \<Rightarrow> 'g state \<Rightarrow> 'g tested" where
  "test_memmap L sz st =
     (case load_filelist st of
        Inl e \<Rightarrow> Inl (e, st)
      | Inr ids \<Rightarrow>
          (case memmap_open_r memmap_path (length ids) sz st of
             Inl e \<Rightarrow> Inl e
           | Inr st1 \<Rightarrow>
               (let (idx, g) = np_shuffle L [0..<length ids] (seed L 515);
                    (means, st2) = memmap_loop (nat sz) idx (st1\<lparr>rng := g\<rparr>) []
                in case summary means of
                     Inl e \<Rightarrow> Inl (e, st2)
                   | Inr r \<Rightarrow> Inr (r, st2))))"

subsection \<open>The command line\<close>

text \<open>
  The parsed arguments: \<^verbatim>\<open>init COUNT\<close>, or \<^verbatim>\<open>create\<close> or \<^verbatim>\<open>test\<close> with a layout and
  the value of \<^verbatim>\<open>int(arguments["--size"])\<close>.
\<close>

datatype layout = Flat | Two_level | Four_level | Memmap

datatype command = Init string | Create layout int | Test layout int

text \<open>\<^verbatim>\<open>int(v)\<close> on the value of \<^verbatim>\<open>eval\<close>: numbers only.\<close>

definition int_of :: "pyval \<Rightarrow> error + int" where
  "int_of v = (case v of PyInt i \<Rightarrow> Inr i | PyFloat x \<Rightarrow> Inr (py_int x) | PyOther \<Rightarrow> Inl TypeError)"

text \<open>The dispatch on the layout (lines 178 to 185 and 187 to 194), and the path
  expression each layout uses; the memory-mapped layout has the one block file.\<close>

definition create_files :: "layout \<Rightarrow> 'g lib \<Rightarrow> int \<Rightarrow> 'g state \<Rightarrow> 'g result" where
  "create_files lay =
     (case lay of
        Flat \<Rightarrow> create_files_flat
      | Two_level \<Rightarrow> create_files_two_level
      | Four_level \<Rightarrow> create_files_four_level
      | Memmap \<Rightarrow> create_files_memmap)"

definition test_layout :: "layout \<Rightarrow> 'g lib \<Rightarrow> int \<Rightarrow> 'g state \<Rightarrow> 'g tested" where
  "test_layout lay =
     (case lay of
        Flat \<Rightarrow> test_flat
      | Two_level \<Rightarrow> test_two_level
      | Four_level \<Rightarrow> test_four_level
      | Memmap \<Rightarrow> test_memmap)"

definition create_path :: "layout \<Rightarrow> string \<Rightarrow> error + string" where
  "create_path lay =
     (case lay of
        Flat \<Rightarrow> create_path_flat
      | Two_level \<Rightarrow> create_path_two_level
      | Four_level \<Rightarrow> create_path_four_level
      | Memmap \<Rightarrow> (\<lambda>name. Inr memmap_path))"


text \<open>
  Running the script: the module body creates the directory \<^verbatim>\<open>cache\<close> (line 24) before
  the arguments are looked at (lines 172 to 194).
\<close>

definition main :: "'g lib \<Rightarrow> command \<Rightarrow> 'g state \<Rightarrow> (error \<times> 'g state) + (report option \<times> 'g state)" where
  "main L cmd st0 =
     (case mkdir ''cache'' st0 of
        Inl e \<Rightarrow> Inl e
      | Inr st \<Rightarrow>
          (case cmd of
             Init cnt \<Rightarrow>
               (case py_eval L cnt of
                  Inl e \<Rightarrow> Inl (e, st)
                | Inr v \<Rightarrow>
                    (case int_of v of
                       Inl e \<Rightarrow> Inl (e, st)
                     | Inr n \<Rightarrow> map_sum id (Pair None) (create_filelist L n st)))
           | Create lay sz \<Rightarrow> map_sum id (Pair None) (create_files lay L sz st)
           | Test lay sz \<Rightarrow> map_sum id (\<lambda>(r, s). (Some r, s)) (test_layout lay L sz st)))"

subsection \<open>Notions used in the statements\<close>

text \<open>The format of \<^verbatim>\<open>uuid.uuid4().hex\<close>: 32 lower-case hexadecimal digits.\<close>

definition hexchars :: "char set" where
  "hexchars = set ''0123456789abcdef''"

definition is_uuid_hex :: "string \<Rightarrow> bool" where
  "is_uuid_hex name \<longleftrightarrow> length name = 32 \<and> set name \<subseteq> hexchars"

text \<open>What the library promises of its draws: uniform draws lie in \<open>[0, 1)\<close>, and a
  bounded draw does not exceed its bound.\<close>

definition uniform :: "'g lib \<Rightarrow> bool" where
  "uniform L \<longleftrightarrow> (\<forall>g. 0 \<le> fst (random_sample L g) \<and> fst (random_sample L g) < 1)"


text \<open>
  A state in which a create phase can run: the module body has made \<^verbatim>\<open>cache\<close>, and
  \<^verbatim>\<open>init\<close> has stored a list of identifiers.
\<close>

definition ready :: "'g state \<Rightarrow> string list \<Rightarrow> bool" where
  "ready st ids \<longleftrightarrow>
     ''cache'' \<in> dirs st \<and> load_filelist st = Inr ids \<and> (\<forall>name\<in>set ids. is_uuid_hex name)"

text \<open>
  The records in the order of their generation: \<open>gen_after L sz k g\<close> is the generator
  state after \<open>k\<close> arrays have been drawn from \<open>g\<close>, \<open>length_draw\<close> the draw that fixes the
  length of record \<open>k\<close>, \<open>nth_array\<close> its content, and \<open>written\<close> the files a run of the
  loop leaves behind.
\<close>

definition draw_array :: "'g lib \<Rightarrow> int \<Rightarrow> 'g \<Rightarrow> real list \<times> 'g" where
  "draw_array L sz g = (case random_array L sz g of Inr r \<Rightarrow> r | Inl (e, g1) \<Rightarrow> ([], g1))"

fun gen_after :: "'g lib \<Rightarrow> int \<Rightarrow> nat \<Rightarrow> 'g \<Rightarrow> 'g" where
  "gen_after L sz 0 g = g"
| "gen_after L sz (Suc k) g = gen_after L sz k (snd (draw_array L sz g))"


definition nth_array :: "'g lib \<Rightarrow> int \<Rightarrow> 'g \<Rightarrow> nat \<Rightarrow> real list" where
  "nth_array L sz g k = fst (draw_array L sz (gen_after L sz k g))"

definition the_path :: "(string \<Rightarrow> error + string) \<Rightarrow> string \<Rightarrow> string" where
  "the_path pth name = (case pth name of Inr p \<Rightarrow> p | Inl e \<Rightarrow> [])"

fun written :: "'g lib \<Rightarrow> (string \<Rightarrow> error + string) \<Rightarrow> int \<Rightarrow> string list \<Rightarrow> 'g \<Rightarrow> (string \<rightharpoonup> content)" where
  "written L pth sz [] g = Map.empty"
| "written L pth sz (name # names) g =
     [the_path pth name \<mapsto> FloatArr (fst (draw_array L sz g))] ++
       written L pth sz names (snd (draw_array L sz g))"


definition draw_row :: "'g lib \<Rightarrow> int \<Rightarrow> 'g \<Rightarrow> real list \<times> 'g" where
  "draw_row L sz g = (case random_row L sz g of Inr r \<Rightarrow> r | Inl (e, g1) \<Rightarrow> ([], g1))"

fun rows_after :: "'g lib \<Rightarrow> int \<Rightarrow> nat \<Rightarrow> 'g \<Rightarrow> 'g" where
  "rows_after L sz 0 g = g"
| "rows_after L sz (Suc k) g = rows_after L sz k (snd (draw_row L sz g))"


fun fill_block :: "'g lib \<Rightarrow> int \<Rightarrow> nat list \<Rightarrow> 'g \<Rightarrow> real list \<Rightarrow> real list" where
  "fill_block L sz [] g blk = blk"
| "fill_block L sz (i # is) g blk =
     fill_block L sz is (snd (draw_row L sz g)) (set_row (nat sz) i (fst (draw_row L sz g)) blk)"

definition filled :: "'g lib \<Rightarrow> int \<Rightarrow> nat \<Rightarrow> real list" where
  "filled L sz n = fill_block L sz [0..<n] (seed L 515) (replicate (n * nat sz) 0)"







subsection \<open>A concrete instance\<close>

text \<open>
  A small library instance for evaluating the program: the generator state is a counter,
  the uniform draws cycle through \<open>0, 1/4, 1/2, 3/4\<close>, the cast is the identity.
  \<open>literal_eval\<close> evaluates a decimal integer literal to an integer and a literal of at
  most four digits, \<^verbatim>\<open>e\<close> and one digit to a float; it raises on every other string, and
  stands for \<^verbatim>\<open>eval\<close> only on the strings it is applied to below.
\<close>

definition is_digit :: "char \<Rightarrow> bool" where
  "is_digit c \<longleftrightarrow> c \<in> set ''0123456789''"

definition digit_val :: "char \<Rightarrow> int" where
  "digit_val c = int (length (takeWhile (\<lambda>d. d \<noteq> c) ''0123456789''))"

definition digits :: "string \<Rightarrow> int" where
  "digits s = foldl (\<lambda>a c. 10 * a + digit_val c) 0 s"

definition literal_eval :: "string \<Rightarrow> error + pyval" where
  "literal_eval s =
     (let m = takeWhile (\<lambda>c. c \<noteq> CHR ''e'') s; x = drop (Suc (length m)) s
      in if s \<noteq> [] \<and> list_all is_digit s \<and> (hd s \<noteq> CHR ''0'' \<or> length s = 1)
         then Inr (PyInt (digits s))
         else if m \<noteq> [] \<and> length m \<le> 4 \<and> list_all is_digit m \<and> s = m @ CHR ''e'' # x \<and>
                 length x = 1 \<and> list_all is_digit x
         then Inr (PyFloat (real_of_int (digits m) * 10 ^ nat (digits x)))
         else Inl SyntaxError)"

definition ex_lib :: "nat lib" where
  "ex_lib =
     \<lparr>seed = (\<lambda>s. s),
      random_sample = (\<lambda>g. (real (g mod 4) / 4, Suc g)),
      rk_interval = (\<lambda>m g. (g mod Suc m, Suc g)),
      float32 = (\<lambda>x. x),
      uuid4_hex = (\<lambda>k. replicate 32 (hexdigit (k mod 16))),
      py_eval = literal_eval\<rparr>"

definition ex_id1 :: string where
  "ex_id1 = ''0123456789abcdef0123456789abcdef''"

definition ex_id2 :: string where
  "ex_id2 = ''fedcba9876543210fedcba9876543210''"

definition ex_state :: "nat state" where
  "ex_state =
     \<lparr>rng = 0, dirs = {''cache''},
      files = [filelist_path \<mapsto> StrArr [ex_id1, ex_id2]], mm_log = []\<rparr>"



definition ex_state2 :: "nat state" where
  "ex_state2 =
     \<lparr>rng = 7, dirs = {''cache''},
      files = [filelist_path \<mapsto> StrArr [ex_id2, ex_id1]], mm_log = []\<rparr>"

definition ex_state3 :: "nat state" where
  "ex_state3 =
     \<lparr>rng = 99, dirs = {''cache/flat'', ''cache''},
      files = [filelist_path \<mapsto> StrArr [ex_id1, ex_id2],
               ''cache/flat/0123456789abcdef0123456789abcdef.npy'' \<mapsto> FloatArr [1, 3]],
      mm_log = []\<rparr>"

text \<open>A state with no directory and no file.\<close>

definition ex_empty_state :: "nat state" where
  "ex_empty_state = \<lparr>rng = 0, dirs = {}, files = Map.empty, mm_log = []\<rparr>"

section \<open>Auxiliary facts\<close>

subsection \<open>Path names, buckets and the create loop\<close>

lemma dirname_append:
  "CHR ''/'' \<notin> set f \<Longrightarrow> dirname (d @ CHR ''/'' # f) = d"
proof -
  assume a: "CHR ''/'' \<notin> set f"
  have "dropWhile (\<lambda>c. c \<noteq> CHR ''/'') (rev f @ CHR ''/'' # rev d) =
        dropWhile (\<lambda>c. c \<noteq> CHR ''/'') (CHR ''/'' # rev d)"
    using a by (intro dropWhile_append2) auto
  then show ?thesis by (simp add: dirname_def)
qed

lemma hexchars_digit: "c \<in> hexchars \<Longrightarrow> \<exists>d<16. c = hexdigit d"
  unfolding hexchars_def hexdigit_def
  apply simp
  apply (elim disjE)
  apply (rule exI[of _ 0], simp)
  apply (rule exI[of _ 1], simp)
  apply (rule exI[of _ 2], simp)
  apply (rule exI[of _ 3], simp)
  apply (rule exI[of _ 4], simp)
  apply (rule exI[of _ 5], simp)
  apply (rule exI[of _ 6], simp)
  apply (rule exI[of _ 7], simp)
  apply (rule exI[of _ 8], simp)
  apply (rule exI[of _ 9], simp)
  apply (rule exI[of _ 10], simp)
  apply (rule exI[of _ 11], simp)
  apply (rule exI[of _ 12], simp)
  apply (rule exI[of _ 13], simp)
  apply (rule exI[of _ 14], simp)
  apply (rule exI[of _ 15], simp)
  done

lemma hex_digit1: "d < 16 \<Longrightarrow> hex d = [hexdigit d]"
  by (subst hex.simps) simp

lemma hex_step: "z < 16 \<Longrightarrow> 0 < n \<Longrightarrow> hex (16 * n + z) = hex n @ [hexdigit z]"
  by (subst hex.simps) simp

lemma hex_digit2: "x < 16 \<Longrightarrow> 0 < x \<Longrightarrow> y < 16 \<Longrightarrow> hex (16 * x + y) = [hexdigit x, hexdigit y]"
  by (simp add: hex_step hex_digit1)

lemma hex_digit3:
  assumes "x < 16" "0 < x" "y < 16" "z < 16"
  shows "hex (256 * x + 16 * y + z) = [hexdigit x, hexdigit y, hexdigit z]"
proof -
  have "hex (16 * (16 * x + y) + z) = hex (16 * x + y) @ [hexdigit z]"
    using assms by (intro hex_step) auto
  moreover have "16 * (16 * x + y) + z = 256 * x + 16 * y + z" by simp
  ultimately have "hex (256 * x + 16 * y + z) = hex (16 * x + y) @ [hexdigit z]" by (simp only:)
  then show ?thesis using assms by (simp only: hex_digit2) simp
qed

lemma hex03_digits:
  assumes "x < 16" "y < 16" "z < 16"
  shows "hex03 (256 * x + 16 * y + z) = [hexdigit x, hexdigit y, hexdigit z]"
proof (cases "x = 0")
  case False
  then show ?thesis using assms by (simp add: hex03_def hex_digit3)
next
  case x0: True
  show ?thesis
  proof (cases "y = 0")
    case False
    then show ?thesis using assms x0 by (simp add: hex03_def hex_digit2 hexdigit_def)
  next
    case True
    then show ?thesis using assms x0 by (simp add: hex03_def hex_digit1 hexdigit_def eval_nat_numeral)
  qed
qed

lemma set_two_level_dirs:
  "set two_level_dirs = (\<lambda>i. ''cache/2level/'' @ hex03 i) ` {0..<4096}"
proof -
  have "(16::nat) ^ 3 = 4096" by simp
  then show ?thesis unfolding two_level_dirs_def by (simp only: set_map set_upt)
qed

lemma two_level_bucket:
  assumes "a \<in> hexchars" "b \<in> hexchars" "c \<in> hexchars"
  shows "''cache/2level/'' @ [a, b, c] \<in> set two_level_dirs"
proof -
  obtain x where x: "x < 16" "a = hexdigit x" using assms(1) hexchars_digit by blast
  obtain y where y: "y < 16" "b = hexdigit y" using assms(2) hexchars_digit by blast
  obtain z where z: "z < 16" "c = hexdigit z" using assms(3) hexchars_digit by blast
  have lt: "256 * x + 16 * y + z < 4096" using x y z by simp
  have h: "hex03 (256 * x + 16 * y + z) = [a, b, c]" using x y z by (simp add: hex03_digits)
  have "''cache/2level/'' @ hex03 (256 * x + 16 * y + z) \<in> (\<lambda>i. ''cache/2level/'' @ hex03 i) ` {0..<4096}"
    using lt by (intro imageI) simp
  then show ?thesis by (simp only: h set_two_level_dirs)
qed

lemma set_four_level_dirs:
  "set four_level_dirs =
     (\<Union>i\<in>{0..<16}. \<Union>j\<in>{0..<16}. (\<lambda>k. ''cache/4level/'' @ hex i @ ''/'' @ hex j @ ''/'' @ hex k) ` {0..<16})"
  unfolding four_level_dirs_def by (simp only: set_concat set_map set_upt image_image)

lemma four_level_bucket:
  assumes "a \<in> hexchars" "b \<in> hexchars" "c \<in> hexchars"
  shows "''cache/4level/'' @ [a] @ ''/'' @ [b] @ ''/'' @ [c] \<in> set four_level_dirs"
proof -
  obtain x where x: "x < 16" "a = hexdigit x" using assms(1) hexchars_digit by blast
  obtain y where y: "y < 16" "b = hexdigit y" using assms(2) hexchars_digit by blast
  obtain z where z: "z < 16" "c = hexdigit z" using assms(3) hexchars_digit by blast
  have mx: "x \<in> {0..<16}" and my: "y \<in> {0..<16}" and mz: "z \<in> {0..<16}"
    using x(1) y(1) z(1) by simp_all
  have "''cache/4level/'' @ hex x @ ''/'' @ hex y @ ''/'' @ hex z \<in> set four_level_dirs"
    unfolding set_four_level_dirs
    by (rule UN_I[OF mx], rule UN_I[OF my], rule imageI[OF mz])
  then show ?thesis using x y z by (simp only: hex_digit1)
qed

lemma has_parent_dirs: "dirs st' = dirs st \<Longrightarrow> has_parent st' p = has_parent st p"
  by (simp add: has_parent_def)

lemma has_parent_mono: "dirs st \<subseteq> dirs st' \<Longrightarrow> has_parent st p \<Longrightarrow> has_parent st' p"
  by (auto simp: has_parent_def)

lemma mkdir_ok: "has_parent st p \<Longrightarrow> mkdir p st = Inr (st\<lparr>dirs := insert p (dirs st)\<rparr>)"
  by (simp add: mkdir_def insert_absorb)

lemma mkdir_each_mkdir:
  "\<forall>p\<in>set ps. has_parent st p \<Longrightarrow>
   mkdir_each mkdir ps st = Inr (st\<lparr>dirs := dirs st \<union> set ps\<rparr>)"
proof (induction ps arbitrary: st)
  case Nil
  then show ?case by simp
next
  case (Cons p ps)
  let ?st1 = "st\<lparr>dirs := insert p (dirs st)\<rparr>"
  have 1: "mkdir p st = Inr ?st1" using Cons.prems by (simp add: mkdir_ok)
  have "\<forall>q\<in>set ps. has_parent ?st1 q"
    using Cons.prems by (auto intro: has_parent_mono[of st])
  then have "mkdir_each mkdir ps ?st1 = Inr (?st1\<lparr>dirs := dirs ?st1 \<union> set ps\<rparr>)"
    by (rule Cons.IH)
  then show ?case using 1 by simp
qed

lemma mkdir_each_parents:
  "mkdir_each mkdir_parents ps st =
     Inr (st\<lparr>dirs := dirs st \<union> (\<Union>p\<in>set ps. set (ancestors p))\<rparr>)"
proof (induction ps arbitrary: st)
  case Nil
  then show ?case by simp
next
  case (Cons p ps)
  have "mkdir_parents p st = Inr (st\<lparr>dirs := dirs st \<union> set (ancestors p)\<rparr>)"
    by (simp add: mkdir_parents_def)
  then show ?case by (simp add: Cons.IH Un_assoc)
qed

lemma self_ancestor: "p \<in> set (ancestors p)"
  by (simp add: ancestors_def)

lemma py_int_nonneg: "0 \<le> x \<Longrightarrow> py_int x = \<lfloor>x\<rfloor>"
  by (simp add: py_int_def)


lemma random_array_Inr:
  assumes "uniform L" "0 \<le> sz"
  shows "random_array L sz g = Inr (draw_array L sz g)"
proof -
  obtain u g1 where u: "random_sample L g = (u, g1)" by (cases "random_sample L g")
  have u0: "0 \<le> u" using assms(1) u by (auto simp: uniform_def dest: spec[of _ g])
  then have "0 \<le> u * 5 * real_of_int sz" using assms(2) by simp
  then have "0 \<le> \<lfloor>u * 5 * real_of_int sz\<rfloor>" by simp
  moreover have "py_int (10 + u * 5 * real_of_int sz) = 10 + \<lfloor>u * 5 * real_of_int sz\<rfloor>"
    using u0 assms(2) by (simp add: py_int_nonneg)
  ultimately have "\<not> py_int (10 + u * 5 * real_of_int sz) < 0" by linarith
  then show ?thesis
    by (simp add: draw_array_def random_array_def u Let_def split: prod.splits)
qed



lemma np_save_ok:
  "has_parent st p \<Longrightarrow> np_save p c st = Inr (st\<lparr>files := (files st)(p \<mapsto> c)\<rparr>)"
  by (simp add: np_save_def)

lemma create_loop_ok:
  assumes "uniform L" "0 \<le> sz"
    and "\<forall>name\<in>set names. \<exists>p. pth name = Inr p \<and> has_parent st p"
  shows "create_loop L pth sz names st =
           Inr (st\<lparr>rng := gen_after L sz (length names) (rng st),
                    files := files st ++ written L pth sz names (rng st)\<rparr>)"
  using assms(3)
proof (induction names arbitrary: st)
  case Nil
  then show ?case by simp
next
  case (Cons name names)
  obtain p where p: "pth name = Inr p" "has_parent st p" using Cons.prems by auto
  obtain arr g where d: "draw_array L sz (rng st) = (arr, g)" by (cases "draw_array L sz (rng st)")
  have ra: "random_array L sz (rng st) = Inr (arr, g)"
    using random_array_Inr[OF assms(1,2)] d by simp
  let ?st1 = "st\<lparr>rng := g, files := (files st)(p \<mapsto> FloatArr arr)\<rparr>"
  have sv: "np_save p (FloatArr arr) (st\<lparr>rng := g\<rparr>) = Inr ?st1"
    using p(2) by (simp add: np_save_def has_parent_def)
  have "\<forall>name\<in>set names. \<exists>q. pth name = Inr q \<and> has_parent ?st1 q"
    using Cons.prems by (simp add: has_parent_def)
  then have ih: "create_loop L pth sz names ?st1 =
           Inr (?st1\<lparr>rng := gen_after L sz (length names) (rng ?st1),
                    files := files ?st1 ++ written L pth sz names (rng ?st1)\<rparr>)"
    by (rule Cons.IH)
  show ?case
    by (simp add: p(1) ra sv ih d the_path_def)
qed

lemma nth_array_0: "nth_array L sz g 0 = fst (draw_array L sz g)"
  by (simp add: nth_array_def)

lemma nth_array_Suc: "nth_array L sz g (Suc k) = nth_array L sz (snd (draw_array L sz g)) k"
  by (simp add: nth_array_def)

lemma written_None:
  "q \<notin> the_path pth ` set names \<Longrightarrow> written L pth sz names g q = None"
  by (induction names arbitrary: g) (auto simp: map_add_def)

lemma written_Some:
  "q \<in> the_path pth ` set names \<Longrightarrow>
   \<exists>k<length names. the_path pth (names ! k) = q \<and>
      written L pth sz names g q = Some (FloatArr (nth_array L sz g k))"
proof (induction names arbitrary: g)
  case Nil
  then show ?case by simp
next
  case (Cons n names)
  let ?g1 = "snd (draw_array L sz g)"
  show ?case
  proof (cases "q \<in> the_path pth ` set names")
    case True
    then obtain k where k: "k < length names" "the_path pth (names ! k) = q"
      "written L pth sz names ?g1 q = Some (FloatArr (nth_array L sz ?g1 k))"
      using Cons.IH[of ?g1] by blast
    have "written L pth sz (n # names) g q = Some (FloatArr (nth_array L sz g (Suc k)))"
      using k(3) by (simp add: map_add_def nth_array_Suc)
    then show ?thesis using k(1,2) by (intro exI[of _ "Suc k"]) simp
  next
    case False
    then have q: "q = the_path pth n" using Cons.prems by auto
    have "written L pth sz names ?g1 q = None" using False by (rule written_None)
    then have "written L pth sz (n # names) g q = Some (FloatArr (nth_array L sz g 0))"
      by (simp add: map_add_def q nth_array_0)
    then show ?thesis using q by (intro exI[of _ 0]) simp
  qed
qed

lemma written_nth:
  assumes "distinct (map (the_path pth) names)" "k < length names"
  shows "written L pth sz names g (the_path pth (names ! k)) = Some (FloatArr (nth_array L sz g k))"
  using assms
proof (induction names arbitrary: g k)
  case Nil
  then show ?case by simp
next
  case (Cons n names)
  let ?g1 = "snd (draw_array L sz g)"
  show ?case
  proof (cases k)
    case 0
    have "the_path pth n \<notin> the_path pth ` set names" using Cons.prems(1) by simp
    then have "written L pth sz names ?g1 (the_path pth n) = None" by (rule written_None)
    then show ?thesis using 0 by (simp add: map_add_def nth_array_0)
  next
    case (Suc j)
    have "written L pth sz names ?g1 (the_path pth (names ! j)) = Some (FloatArr (nth_array L sz ?g1 j))"
      using Cons.prems Suc by (intro Cons.IH) simp_all
    then show ?thesis using Suc by (simp add: map_add_def nth_array_Suc)
  qed
qed

lemma slash_not_hex: "CHR ''/'' \<notin> hexchars"
  by (simp add: hexchars_def)

lemma no_slash_file: "is_uuid_hex name \<Longrightarrow> CHR ''/'' \<notin> set (name @ ''.npy'')"
  using slash_not_hex by (auto simp: is_uuid_hex_def)

lemma dirname_flat:
  assumes "is_uuid_hex name"
  shows "dirname (''cache/flat/'' @ name @ ''.npy'') = ''cache/flat''"
proof -
  have "''cache/flat/'' @ name @ ''.npy'' = ''cache/flat'' @ CHR ''/'' # (name @ ''.npy'')" by simp
  then show ?thesis using dirname_append[OF no_slash_file[OF assms], of "''cache/flat''"] by simp
qed

lemma last3_uuid:
  assumes "is_uuid_hex name"
  obtains a b c where "last3 name = [a, b, c]" "a \<in> hexchars" "b \<in> hexchars" "c \<in> hexchars"
proof -
  have l: "length (last3 name) = 3" using assms by (simp add: last3_def is_uuid_hex_def)
  have s: "set (last3 name) \<subseteq> hexchars"
    using assms set_drop_subset[of "length name - 3" name] by (auto simp: last3_def is_uuid_hex_def)
  from l obtain a b c where e: "last3 name = [a, b, c]"
    by (auto simp: length_Suc_conv eval_nat_numeral)
  then show ?thesis using s that by simp
qed

lemma dirname_two_level:
  assumes "is_uuid_hex name"
  shows "dirname (''cache/2level/'' @ last3 name @ ''/'' @ name @ ''.npy'') = ''cache/2level/'' @ last3 name"
    and "''cache/2level/'' @ last3 name \<in> set two_level_dirs"
proof -
  have "''cache/2level/'' @ last3 name @ ''/'' @ name @ ''.npy'' =
        (''cache/2level/'' @ last3 name) @ CHR ''/'' # (name @ ''.npy'')" by simp
  then show "dirname (''cache/2level/'' @ last3 name @ ''/'' @ name @ ''.npy'') = ''cache/2level/'' @ last3 name"
    using dirname_append[OF no_slash_file[OF assms], of "''cache/2level/'' @ last3 name"] by (simp only:)
  obtain a b c where "last3 name = [a, b, c]" "a \<in> hexchars" "b \<in> hexchars" "c \<in> hexchars"
    using assms by (rule last3_uuid)
  then show "''cache/2level/'' @ last3 name \<in> set two_level_dirs"
    using two_level_bucket[of a b c] by (simp only:)
qed

lemma from_end_uuid:
  assumes "is_uuid_hex name" "1 \<le> k" "k \<le> 32"
  shows "from_end name k = Inr (name ! (32 - k))" and "name ! (32 - k) \<in> hexchars"
proof -
  show "from_end name k = Inr (name ! (32 - k))"
    using assms by (simp add: from_end_def is_uuid_hex_def)
  have "name ! (32 - k) \<in> set name" using assms by (intro nth_mem) (simp add: is_uuid_hex_def)
  then show "name ! (32 - k) \<in> hexchars" using assms(1) by (auto simp: is_uuid_hex_def)
qed

lemma create_path_four_level_uuid:
  assumes "is_uuid_hex name"
  shows "create_path_four_level name =
           Inr ((''cache/4level/'' @ [name ! 31] @ ''/'' @ [name ! 30] @ ''/'' @ [name ! 29]) @
                CHR ''/'' # (name @ ''.npy''))"
  using from_end_uuid(1)[OF assms, of 1] from_end_uuid(1)[OF assms, of 2]
    from_end_uuid(1)[OF assms, of 3]
  by (simp add: create_path_four_level_def)

lemma four_level_parent:
  assumes "is_uuid_hex name"
  shows "\<exists>p. create_path_four_level name = Inr p \<and> dirname p \<in> set four_level_dirs"
proof -
  let ?d = "''cache/4level/'' @ [name ! 31] @ ''/'' @ [name ! 30] @ ''/'' @ [name ! 29]"
  have h: "name ! 31 \<in> hexchars" "name ! 30 \<in> hexchars" "name ! 29 \<in> hexchars"
    using from_end_uuid(2)[OF assms, of 1] from_end_uuid(2)[OF assms, of 2]
      from_end_uuid(2)[OF assms, of 3] by simp_all
  have "dirname (?d @ CHR ''/'' # (name @ ''.npy'')) = ?d"
    by (rule dirname_append[OF no_slash_file[OF assms]])
  moreover have "?d \<in> set four_level_dirs" using h by (rule four_level_bucket)
  ultimately show ?thesis using create_path_four_level_uuid[OF assms] by (simp only:) simp
qed

lemma load_filelist_files: "files st' = files st \<Longrightarrow> load_filelist st' = load_filelist st"
  by (simp add: load_filelist_def np_load_def)

lemma has_parent_cache:
  "''cache'' \<in> dirs st \<Longrightarrow> has_parent st ''cache/flat''"
  "''cache'' \<in> dirs st \<Longrightarrow> has_parent st ''cache/2level''"
  "''cache'' \<in> dirs st \<Longrightarrow> has_parent st ''cache/4level''"
  "''cache'' \<in> dirs st \<Longrightarrow> has_parent st ''cache/memmap''"
  "''cache'' \<in> dirs st \<Longrightarrow> has_parent st ''cache/filelist.npy''"
  by (simp_all add: has_parent_def dirname_def)

lemma hexdigit_hexchars: "d < 16 \<Longrightarrow> hexdigit d \<in> hexchars"
  unfolding hexdigit_def hexchars_def by (rule nth_mem) simp

lemma hex_hexchars: "set (hex n) \<subseteq> hexchars"
proof (induction n rule: hex.induct)
  case (1 n)
  show ?case
  proof (cases "n < 16")
    case True
    then show ?thesis by (simp add: hex_digit1 hexdigit_hexchars)
  next
    case False
    have "hex n = hex (n div 16) @ [hexdigit (n mod 16)]"
      using False by (subst hex.simps) simp
    moreover have "hexdigit (n mod 16) \<in> hexchars" by (rule hexdigit_hexchars) simp
    ultimately show ?thesis using 1[OF False] by simp
  qed
qed

lemma hex03_no_slash: "CHR ''/'' \<notin> set (hex03 i)"
proof -
  have "CHR ''0'' \<in> hexchars" by (simp add: hexchars_def)
  then have "set (hex03 i) \<subseteq> hexchars"
    using hex_hexchars[of i] by (auto simp: hex03_def)
  then show ?thesis using slash_not_hex by blast
qed

lemma flat_parent:
  assumes "is_uuid_hex name"
  shows "\<exists>p. create_path_flat name = Inr p \<and> dirname p = ''cache/flat''"
  unfolding create_path_flat_def using dirname_flat[OF assms] by blast

lemma two_level_parent:
  assumes "is_uuid_hex name"
  shows "\<exists>p. create_path_two_level name = Inr p \<and> dirname p \<in> set two_level_dirs"
proof -
  let ?p = "''cache/2level/'' @ last3 name @ ''/'' @ name @ ''.npy''"
  have "dirname ?p \<in> set two_level_dirs"
    using dirname_two_level[OF assms] by (simp only:)
  then show ?thesis unfolding create_path_two_level_def by blast
qed

lemma create_files_flat_ok:
  assumes "uniform L" "0 \<le> sz" "ready st ids"
  shows "create_files_flat L sz st =
           Inr (st\<lparr>rng := gen_after L sz (length ids) (seed L 515),
                    dirs := insert ''cache/flat'' (dirs st),
                    files := files st ++ written L create_path_flat sz ids (seed L 515)\<rparr>)"
proof -
  let ?st1 = "st\<lparr>dirs := insert ''cache/flat'' (dirs st)\<rparr>"
  let ?st2 = "?st1\<lparr>rng := seed L 515\<rparr>"
  have mk: "mkdir ''cache/flat'' st = Inr ?st1"
    using assms(3) by (intro mkdir_ok has_parent_cache) (simp add: ready_def)
  have ld: "load_filelist ?st1 = Inr ids"
    using assms(3) load_filelist_files[of ?st1 st] by (simp add: ready_def)
  have "\<forall>name\<in>set ids. \<exists>p. create_path_flat name = Inr p \<and> has_parent ?st2 p"
  proof
    fix name assume "name \<in> set ids"
    then have "is_uuid_hex name" using assms(3) by (simp add: ready_def)
    then obtain p where p: "create_path_flat name = Inr p" "dirname p = ''cache/flat''"
      using flat_parent by blast
    then show "\<exists>p. create_path_flat name = Inr p \<and> has_parent ?st2 p"
      by (simp add: has_parent_def)
  qed
  then have "create_loop L create_path_flat sz ids ?st2 =
      Inr (?st2\<lparr>rng := gen_after L sz (length ids) (rng ?st2),
                 files := files ?st2 ++ written L create_path_flat sz ids (rng ?st2)\<rparr>)"
    by (rule create_loop_ok[OF assms(1,2)])
  then show ?thesis by (simp add: create_files_flat_def mk ld)
qed

lemma create_files_two_level_ok:
  assumes "uniform L" "0 \<le> sz" "ready st ids"
  shows "create_files_two_level L sz st =
           Inr (st\<lparr>rng := gen_after L sz (length ids) (seed L 515),
                    dirs := insert ''cache/2level'' (dirs st) \<union> set two_level_dirs,
                    files := files st ++ written L create_path_two_level sz ids (seed L 515)\<rparr>)"
proof -
  let ?st1 = "st\<lparr>dirs := insert ''cache/2level'' (dirs st)\<rparr>"
  let ?st2 = "?st1\<lparr>dirs := dirs ?st1 \<union> set two_level_dirs\<rparr>"
  let ?st3 = "?st2\<lparr>rng := seed L 515\<rparr>"
  have mk: "mkdir ''cache/2level'' st = Inr ?st1"
    using assms(3) by (intro mkdir_ok has_parent_cache) (simp add: ready_def)
  have ld: "load_filelist ?st1 = Inr ids"
    using assms(3) load_filelist_files[of ?st1 st] by (simp add: ready_def)
  have "\<forall>p\<in>set two_level_dirs. has_parent ?st1 p"
  proof
    fix p assume "p \<in> set two_level_dirs"
    then obtain i where "p = ''cache/2level'' @ CHR ''/'' # hex03 i"
      by (auto simp: set_two_level_dirs)
    then have "dirname p = ''cache/2level''"
      using dirname_append[OF hex03_no_slash, of "''cache/2level''" i] by (simp only:)
    then show "has_parent ?st1 p" by (simp add: has_parent_def)
  qed
  then have mks: "mkdir_each mkdir two_level_dirs ?st1 = Inr ?st2" by (rule mkdir_each_mkdir)
  have "\<forall>name\<in>set ids. \<exists>p. create_path_two_level name = Inr p \<and> has_parent ?st3 p"
  proof
    fix name assume "name \<in> set ids"
    then have "is_uuid_hex name" using assms(3) by (simp add: ready_def)
    then obtain p where p: "create_path_two_level name = Inr p" "dirname p \<in> set two_level_dirs"
      using two_level_parent by blast
    then show "\<exists>p. create_path_two_level name = Inr p \<and> has_parent ?st3 p"
      by (simp add: has_parent_def)
  qed
  then have "create_loop L create_path_two_level sz ids ?st3 =
      Inr (?st3\<lparr>rng := gen_after L sz (length ids) (rng ?st3),
                 files := files ?st3 ++ written L create_path_two_level sz ids (rng ?st3)\<rparr>)"
    by (rule create_loop_ok[OF assms(1,2)])
  then show ?thesis by (simp add: create_files_two_level_def mk ld mks)
qed

lemma create_files_four_level_ok:
  assumes "uniform L" "0 \<le> sz" "ready st ids"
  shows "create_files_four_level L sz st =
           Inr (st\<lparr>rng := gen_after L sz (length ids) (seed L 515),
                    dirs := insert ''cache/4level'' (dirs st) \<union>
                            (\<Union>p\<in>set four_level_dirs. set (ancestors p)),
                    files := files st ++ written L create_path_four_level sz ids (seed L 515)\<rparr>)"
proof -
  let ?st1 = "st\<lparr>dirs := insert ''cache/4level'' (dirs st)\<rparr>"
  let ?st2 = "?st1\<lparr>dirs := dirs ?st1 \<union> (\<Union>p\<in>set four_level_dirs. set (ancestors p))\<rparr>"
  let ?st3 = "?st2\<lparr>rng := seed L 515\<rparr>"
  have mk: "mkdir ''cache/4level'' st = Inr ?st1"
    using assms(3) by (intro mkdir_ok has_parent_cache) (simp add: ready_def)
  have ld: "load_filelist ?st1 = Inr ids"
    using assms(3) load_filelist_files[of ?st1 st] by (simp add: ready_def)
  have mks: "mkdir_each mkdir_parents four_level_dirs ?st1 = Inr ?st2" by (rule mkdir_each_parents)
  have "\<forall>name\<in>set ids. \<exists>p. create_path_four_level name = Inr p \<and> has_parent ?st3 p"
  proof
    fix name assume "name \<in> set ids"
    then have "is_uuid_hex name" using assms(3) by (simp add: ready_def)
    then obtain p where p: "create_path_four_level name = Inr p" "dirname p \<in> set four_level_dirs"
      using four_level_parent by blast
    have "dirname p \<in> (\<Union>q\<in>set four_level_dirs. set (ancestors q))"
      using p(2) self_ancestor by blast
    then show "\<exists>p. create_path_four_level name = Inr p \<and> has_parent ?st3 p"
      using p(1) by (simp add: has_parent_def)
  qed
  then have "create_loop L create_path_four_level sz ids ?st3 =
      Inr (?st3\<lparr>rng := gen_after L sz (length ids) (rng ?st3),
                 files := files ?st3 ++ written L create_path_four_level sz ids (rng ?st3)\<rparr>)"
    by (rule create_loop_ok[OF assms(1,2)])
  then show ?thesis by (simp add: create_files_four_level_def mk ld mks)
qed

subsection \<open>The concrete instance\<close>

lemma ex_lib_uniform: "uniform ex_lib"
proof -
  have "real (g mod 4) / 4 < 1" for g :: nat
  proof -
    have "g mod 4 < 4" by simp
    then have "real (g mod 4) < real 4" by (simp only: of_nat_less_iff)
    then show ?thesis by simp
  qed
  then show ?thesis by (simp add: uniform_def ex_lib_def)
qed

lemma ex_ids_uuid: "is_uuid_hex ex_id1" "is_uuid_hex ex_id2"
  by (simp_all add: is_uuid_hex_def ex_id1_def ex_id2_def hexchars_def)

lemma ex_state_ready: "ready ex_state [ex_id1, ex_id2]"
  by (simp add: ready_def ex_state_def load_filelist_def np_load_def ex_ids_uuid)

lemma rep32: "replicate 32 c = [c,c,c,c,c,c,c,c,c,c,c,c,c,c,c,c,c,c,c,c,c,c,c,c,c,c,c,c,c,c,c,c]"
  by (simp add: eval_nat_numeral)




lemma path_of_written:
  assumes "\<forall>name\<in>set ids. \<exists>p. pth name = Inr p"
    and "name \<in> set ids"
  obtains k p where "k < length ids" "pth name = Inr p" "pth (ids ! k) = Inr p"
    "(fs ++ written L pth sz ids g) p = Some (FloatArr (nth_array L sz g k))"
proof -
  obtain p where p: "pth name = Inr p" using assms by blast
  then have tp: "the_path pth name = p" by (simp add: the_path_def)
  then have "p \<in> the_path pth ` set ids" using assms(2) by blast
  then obtain k where k: "k < length ids" "the_path pth (ids ! k) = p"
    "written L pth sz ids g p = Some (FloatArr (nth_array L sz g k))"
    using written_Some[of p pth ids L sz g] by blast
  obtain q where q: "pth (ids ! k) = Inr q" using assms(1) k(1) nth_mem by blast
  then have "q = p" using k(2) by (simp add: the_path_def)
  with q have r: "pth (ids ! k) = Inr p" by (simp only:)
  have w: "(fs ++ written L pth sz ids g) p = Some (FloatArr (nth_array L sz g k))"
    using k(3) by (rule map_add_find_right)
  show ?thesis by (rule that[OF k(1) p r w])
qed

lemma create_path_uuid:
  assumes "is_uuid_hex name"
  shows "\<exists>p. create_path lay name = Inr p"
proof (cases lay)
  case Flat
  then show ?thesis using flat_parent[OF assms] by (auto simp: create_path_def)
next
  case Two_level
  then show ?thesis using two_level_parent[OF assms] by (auto simp: create_path_def)
next
  case Four_level
  then show ?thesis using four_level_parent[OF assms] by (auto simp: create_path_def)
next
  case Memmap
  then show ?thesis by (simp add: create_path_def)
qed

lemma create_files_ok:
  assumes "uniform L" "0 \<le> sz" "ready st ids" "lay \<noteq> Memmap"
  shows "\<exists>st'. create_files lay L sz st = Inr st' \<and>
           files st' = files st ++ written L (create_path lay) sz ids (seed L 515) \<and>
           mm_log st' = mm_log st \<and> dirs st \<subseteq> dirs st'"
proof (cases lay)
  case Flat
  then show ?thesis using create_files_flat_ok[OF assms(1-3)]
    by (auto simp: create_files_def create_path_def)
next
  case Two_level
  then show ?thesis using create_files_two_level_ok[OF assms(1-3)]
    by (auto simp: create_files_def create_path_def)
next
  case Four_level
  then show ?thesis using create_files_four_level_ok[OF assms(1-3)]
    by (auto simp: create_files_def create_path_def)
next
  case Memmap
  then show ?thesis using assms(4) by simp
qed

lemma created_files:
  assumes "uniform L" "0 \<le> sz" "ready st ids" "lay \<noteq> Memmap"
  obtains st' where "create_files lay L sz st = Inr st'"
    and "files st' = files st ++ written L (create_path lay) sz ids (seed L 515)"
    and "mm_log st' = mm_log st" and "dirs st \<subseteq> dirs st'"
    and "\<And>name. name \<in> set ids \<Longrightarrow>
           \<exists>k<length ids. \<exists>p. create_path lay name = Inr p \<and> create_path lay (ids ! k) = Inr p \<and>
             files st' p = Some (FloatArr (nth_array L sz (seed L 515) k))"
proof -
  obtain st' where st': "create_files lay L sz st = Inr st'"
    "files st' = files st ++ written L (create_path lay) sz ids (seed L 515)"
    "mm_log st' = mm_log st" "dirs st \<subseteq> dirs st'"
    using create_files_ok[OF assms] by (elim exE conjE)
  have paths: "\<forall>name\<in>set ids. \<exists>p. create_path lay name = Inr p"
  proof
    fix name assume "name \<in> set ids"
    then have "is_uuid_hex name" using assms(3) by (simp add: ready_def)
    then show "\<exists>p. create_path lay name = Inr p" by (rule create_path_uuid)
  qed
  have "\<exists>k<length ids. \<exists>p. create_path lay name = Inr p \<and> create_path lay (ids ! k) = Inr p \<and>
             files st' p = Some (FloatArr (nth_array L sz (seed L 515) k))"
    if n: "name \<in> set ids" for name
  proof -
    obtain k p where k: "k < length ids" "create_path lay name = Inr p"
      "create_path lay (ids ! k) = Inr p"
      "(files st ++ written L (create_path lay) sz ids (seed L 515)) p =
         Some (FloatArr (nth_array L sz (seed L 515) k))"
      by (rule path_of_written[OF paths n, where fs="files st" and L=L and sz=sz and g="seed L 515"])
    have f: "files st' p = Some (FloatArr (nth_array L sz (seed L 515) k))"
      using k(4) by (simp only: st'(2))
    show ?thesis
      by (rule exI[of _ k], rule conjI[OF k(1)], rule exI[of _ p], intro conjI k(2) k(3) f)
  qed
  then show ?thesis using st' that by blast
qed


lemma random_row_Inr: "0 \<le> sz \<Longrightarrow> random_row L sz g = Inr (draw_row L sz g)"
  by (simp add: draw_row_def random_row_def split: prod.splits)





lemma mm_block_Raw: "files st memmap_path = Some (Raw blk) \<Longrightarrow> mm_block st = blk"
  by (simp add: mm_block_def)

lemma memmap_fill_ok:
  assumes "0 \<le> sz" "files st memmap_path = Some (Raw blk)"
  shows "memmap_fill L sz is st =
           Inr (st\<lparr>rng := rows_after L sz (length is) (rng st),
                    files := (files st)(memmap_path \<mapsto> Raw (fill_block L sz is (rng st) blk)),
                    mm_log := mm_log st @ map MmSetRow is\<rparr>)"
  using assms(2)
proof (induction "is" arbitrary: st blk)
  case Nil
  have "(files st)(memmap_path \<mapsto> Raw blk) = files st"
    using Nil by (intro map_upd_triv)
  then show ?case by simp
next
  case (Cons i "is")
  obtain row g where d: "draw_row L sz (rng st) = (row, g)" by (cases "draw_row L sz (rng st)")
  have rr: "random_row L sz (rng st) = Inr (row, g)"
    using random_row_Inr[OF assms(1), of L "rng st"] d by simp
  let ?blk1 = "set_row (nat sz) i row blk"
  let ?st1 = "st\<lparr>rng := g, files := (files st)(memmap_path \<mapsto> Raw ?blk1),
                  mm_log := mm_log st @ [MmSetRow i]\<rparr>"
  have "files ?st1 memmap_path = Some (Raw ?blk1)" by simp
  then have ih: "memmap_fill L sz is ?st1 =
           Inr (?st1\<lparr>rng := rows_after L sz (length is) (rng ?st1),
                    files := (files ?st1)(memmap_path \<mapsto> Raw (fill_block L sz is (rng ?st1) ?blk1)),
                    mm_log := mm_log ?st1 @ map MmSetRow is\<rparr>)"
    by (rule Cons.IH)
  have mb: "mm_block st = blk" using Cons.prems by (rule mm_block_Raw)
  have step: "memmap_fill L sz (i # is) st = memmap_fill L sz is ?st1"
    by (simp add: rr mb)
  have fb: "fill_block L sz (i # is) (rng st) blk = fill_block L sz is g ?blk1"
    by (simp add: d)
  have ra: "rows_after L sz (length (i # is)) (rng st) = rows_after L sz (length is) g"
    by (simp add: d)
  have "memmap_fill L sz (i # is) st =
           Inr (?st1\<lparr>rng := rows_after L sz (length is) (rng ?st1),
                    files := (files ?st1)(memmap_path \<mapsto> Raw (fill_block L sz is (rng ?st1) ?blk1)),
                    mm_log := mm_log ?st1 @ map MmSetRow is\<rparr>)"
    using step ih by (rule trans)
  also have "\<dots> = Inr (st\<lparr>rng := rows_after L sz (length (i # is)) (rng st),
                    files := (files st)(memmap_path \<mapsto> Raw (fill_block L sz (i # is) (rng st) blk)),
                    mm_log := mm_log st @ map MmSetRow (i # is)\<rparr>)"
    by (simp only: fb ra) simp
  finally show ?case .
qed







lemma create_files_memmap_ok:
  assumes "0 < sz" "ready st ids" "ids \<noteq> []"
  shows "create_files_memmap L sz st =
           Inr (st\<lparr>rng := rows_after L sz (length ids) (seed L 515),
                    dirs := insert ''cache/memmap'' (dirs st),
                    files := (files st)(memmap_path \<mapsto> Raw (filled L sz (length ids))),
                    mm_log := mm_log st @ [MmOpen ''w+''] @ map MmSetRow [0..<length ids] @ [MmFlush]\<rparr>)"
proof -
  let ?n = "length ids"
  let ?z = "replicate (?n * nat sz) (0::real)"
  let ?st1 = "st\<lparr>dirs := insert ''cache/memmap'' (dirs st)\<rparr>"
  let ?st2 = "?st1\<lparr>files := (files ?st1)(memmap_path \<mapsto> Raw ?z),
                   mm_log := mm_log ?st1 @ [MmOpen ''w+'']\<rparr>"
  let ?st3 = "?st2\<lparr>rng := seed L 515\<rparr>"
  have mk: "mkdir ''cache/memmap'' st = Inr ?st1"
    using assms(2) by (intro mkdir_ok has_parent_cache) (simp add: ready_def)
  have ld: "load_filelist ?st1 = Inr ids"
    using assms(2) load_filelist_files[of ?st1 st] by (simp add: ready_def)
  have hp: "has_parent ?st1 memmap_path"
    by (simp add: has_parent_def memmap_path_def dirname_def)
  have pos: "\<not> int ?n * sz \<le> 0"
  proof -
    have "0 < int ?n" using assms(3) by simp
    then have "0 < int ?n * sz" using assms(1) by (rule mult_pos_pos)
    then show ?thesis by simp
  qed
  have op: "memmap_open_w memmap_path ?n sz ?st1 = Inr ?st2"
    using hp pos by (simp add: memmap_open_w_def)
  have f3: "files ?st3 memmap_path = Some (Raw ?z)" by simp
  have sz0: "0 \<le> sz" using assms(1) by simp
  note fl = memmap_fill_ok[OF sz0 f3, of L "[0..<?n]"]
  have "create_files_memmap L sz st =
          (case memmap_fill L sz [0..<?n] ?st3 of
             Inl e \<Rightarrow> Inl e
           | Inr st3 \<Rightarrow> Inr (st3\<lparr>mm_log := mm_log st3 @ [MmFlush]\<rparr>))"
    by (simp add: create_files_memmap_def mk ld op)
  also have "\<dots> = Inr (st\<lparr>rng := rows_after L sz (length ids) (seed L 515),
                    dirs := insert ''cache/memmap'' (dirs st),
                    files := (files st)(memmap_path \<mapsto> Raw (filled L sz (length ids))),
                    mm_log := mm_log st @ [MmOpen ''w+''] @ map MmSetRow [0..<length ids] @ [MmFlush]\<rparr>)"
    unfolding fl by (simp add: filled_def)
  finally show ?thesis .
qed


































lemma length_last3: "is_uuid_hex name \<Longrightarrow> length (last3 name) = 3"
  by (simp add: last3_def is_uuid_hex_def)

lemma create_path_inj:
  assumes "is_uuid_hex a" "is_uuid_hex b" "lay \<noteq> Memmap"
    and "the_path (create_path lay) a = the_path (create_path lay) b"
  shows "a = b"
proof (cases lay)
  case Flat
  then show ?thesis using assms(4) by (simp add: the_path_def create_path_def create_path_flat_def)
next
  case Two_level
  then have "last3 a @ (''/'' @ a @ ''.npy'') = last3 b @ (''/'' @ b @ ''.npy'')"
    using assms(4) by (simp add: the_path_def create_path_def create_path_two_level_def)
  moreover have "length (last3 a) = length (last3 b)"
    using assms(1,2) by (simp add: length_last3)
  ultimately have "last3 a = last3 b \<and> ''/'' @ a @ ''.npy'' = ''/'' @ b @ ''.npy''"
    using append_eq_append_conv[of "last3 a" "last3 b" "''/'' @ a @ ''.npy''" "''/'' @ b @ ''.npy''"]
    by blast
  then show ?thesis by simp
next
  case Four_level
  then show ?thesis
    using assms(4) create_path_four_level_uuid[OF assms(1)] create_path_four_level_uuid[OF assms(2)]
    by (simp add: the_path_def create_path_def)
next
  case Memmap
  then show ?thesis using assms(3) by simp
qed

lemma distinct_paths:
  assumes "\<forall>name\<in>set ids. is_uuid_hex name" "distinct ids" "lay \<noteq> Memmap"
  shows "distinct (map (the_path (create_path lay)) ids)"
proof -
  have "inj_on (the_path (create_path lay)) (set ids)"
    using assms(1,3) create_path_inj by (intro inj_onI) blast
  then show ?thesis using assms(2) by (simp add: distinct_map)
qed

lemma created_nth:
  assumes "uniform L" "0 \<le> sz" "ready st ids" "lay \<noteq> Memmap" "distinct ids"
  obtains st' where "create_files lay L sz st = Inr st'"
    and "\<forall>k<length ids. \<exists>p. create_path lay (ids ! k) = Inr p \<and>
               files st' p = Some (FloatArr (nth_array L sz (seed L 515) k))"
proof -
  obtain st' where st': "create_files lay L sz st = Inr st'"
    "files st' = files st ++ written L (create_path lay) sz ids (seed L 515)"
    using created_files[OF assms(1-4)] by metis
  have u: "\<forall>name\<in>set ids. is_uuid_hex name" using assms(3) by (simp add: ready_def)
  have d: "distinct (map (the_path (create_path lay)) ids)"
    by (rule distinct_paths[OF u assms(5,4)])
  have "\<exists>p. create_path lay (ids ! k) = Inr p \<and>
           files st' p = Some (FloatArr (nth_array L sz (seed L 515) k))"
    if k: "k < length ids" for k
  proof -
    have "is_uuid_hex (ids ! k)" using u k by simp
    then obtain p where p: "create_path lay (ids ! k) = Inr p" using create_path_uuid by blast
    then have tp: "the_path (create_path lay) (ids ! k) = p" by (simp add: the_path_def)
    have "written L (create_path lay) sz ids (seed L 515) (the_path (create_path lay) (ids ! k)) =
            Some (FloatArr (nth_array L sz (seed L 515) k))"
      by (rule written_nth[OF d k])
    then have "written L (create_path lay) sz ids (seed L 515) p =
            Some (FloatArr (nth_array L sz (seed L 515) k))"
      by (simp only: tp)
    then have "(files st ++ written L (create_path lay) sz ids (seed L 515)) p =
            Some (FloatArr (nth_array L sz (seed L 515) k))"
      by (rule map_add_find_right)
    then have "files st' p = Some (FloatArr (nth_array L sz (seed L 515) k))"
      by (simp only: st'(2))
    then show ?thesis using p by blast
  qed
  then have "\<forall>k<length ids. \<exists>p. create_path lay (ids ! k) = Inr p \<and>
               files st' p = Some (FloatArr (nth_array L sz (seed L 515) k))" by blast
  with st'(1) show ?thesis by (rule that)
qed

lemma ex_state2_ready: "ready ex_state2 [ex_id2, ex_id1]"
  by (simp add: ready_def ex_state2_def load_filelist_def np_load_def ex_ids_uuid)

lemma ex_ids_distinct: "distinct [ex_id1, ex_id2]" "distinct [ex_id2, ex_id1]"
  by (simp_all add: ex_id1_def ex_id2_def)

lemma written_of_name:
  assumes "\<forall>name\<in>set ids. \<exists>p. pth name = Inr p" "name \<in> set ids"
  shows "\<exists>p k. k < length ids \<and> pth name = Inr p \<and>
           written L pth sz ids g p = Some (FloatArr (nth_array L sz g k))"
proof -
  obtain p where p: "pth name = Inr p" using assms by blast
  then have tp: "the_path pth name = p" by (simp add: the_path_def)
  then have "p \<in> the_path pth ` set ids" using assms(2) by blast
  then obtain k where k: "k < length ids"
    "written L pth sz ids g p = Some (FloatArr (nth_array L sz g k))"
    using written_Some[of p pth ids L sz g] by blast
  show ?thesis by (intro exI[of _ p] exI[of _ k] conjI k p)
qed

lemma create_paths_exist:
  assumes "ready st ids"
  shows "\<forall>name\<in>set ids. \<exists>p. create_path lay name = Inr p"
proof
  fix name assume "name \<in> set ids"
  then have "is_uuid_hex name" using assms by (simp add: ready_def)
  then show "\<exists>p. create_path lay name = Inr p" by (rule create_path_uuid)
qed

lemma created_memmap:
  assumes "0 < sz" "ready st ids" "ids \<noteq> []"
  obtains st' where "create_files Memmap L sz st = Inr st'"
    and "files st' = (files st)(memmap_path \<mapsto> Raw (filled L sz (length ids)))"
    and "mm_log st' = mm_log st @ [MmOpen ''w+''] @ map MmSetRow [0..<length ids] @ [MmFlush]"
    and "dirs st \<subseteq> dirs st'"
  using create_files_memmap_ok[OF assms, of L] by (simp add: create_files_def subset_insertI)

lemma ex_state3_ready: "ready ex_state3 [ex_id1, ex_id2]"
  by (simp add: ready_def ex_state3_def load_filelist_def np_load_def ex_ids_uuid filelist_path_def)










section \<open>The claims\<close>



text \<open>
  C1. \<^verbatim>\<open>create_filelist(n)\<close>, run where the directory \<^verbatim>\<open>cache\<close> exists, stores the
  list \<open>ids\<close> of the identifiers it generated, one for each element of \<^verbatim>\<open>range(n)\<close>;
  loading the stored file gives \<open>ids\<close> back; the function returns normally when the
  number of loaded identifiers is \<open>n\<close> and raises \<^verbatim>\<open>AssertionError\<close> (the count mismatch)
  otherwise, the file staying in place. The counts differ exactly for a negative \<open>n\<close>.
\<close>

theorem create_filelist_self_check:
  assumes "''cache'' \<in> dirs st"
    and "ids = map (uuid4_hex L) [0..<nat n]"
    and "st1 = st\<lparr>files := (files st)(filelist_path \<mapsto> StrArr ids)\<rparr>"
  shows "load_filelist st1 = Inr ids \<and>
         create_filelist L n st =
           (if int (length ids) = n then Inr st1 else Inl (AssertionError, st1)) \<and>
         (int (length ids) = n \<longleftrightarrow> 0 \<le> n)"
proof -
  have hp: "has_parent st filelist_path"
    using assms(1) has_parent_cache(5) by (simp add: filelist_path_def)
  have sv: "np_save filelist_path (StrArr ids) st = Inr st1"
    using hp by (simp add: np_save_ok assms(3))
  have ld: "load_filelist st1 = Inr ids"
    by (simp add: load_filelist_def np_load_def assms(3))
  have "create_filelist L n st =
          (if int (length ids) = n then Inr st1 else Inl (AssertionError, st1))"
    using sv ld by (simp add: create_filelist_def assms(2)[symmetric])
  moreover have "int (length ids) = n \<longleftrightarrow> 0 \<le> n" by (auto simp: assms(2))
  ultimately show ?thesis using ld by blast
qed

theorem create_filelist_self_check_witness:
  "''cache'' \<in> dirs ex_state \<and>
   create_filelist ex_lib 2 ex_state =
     Inr (ex_state\<lparr>files := (files ex_state)(filelist_path \<mapsto>
            StrArr [''00000000000000000000000000000000'', ''11111111111111111111111111111111''])\<rparr>) \<and>
   create_filelist ex_lib (- 1) ex_state =
     Inl (AssertionError, ex_state\<lparr>files := (files ex_state)(filelist_path \<mapsto> StrArr [])\<rparr>)"
proof -
  let ?ids = "[''00000000000000000000000000000000'', ''11111111111111111111111111111111'']"
  have c: "''cache'' \<in> dirs ex_state" by (simp add: ex_state_def)
  have "[0..<nat 2] = [0, Suc 0]" by (simp add: eval_nat_numeral)
  then have i2: "?ids = map (uuid4_hex ex_lib) [0..<nat 2]"
    by (simp add: ex_lib_def hexdigit_def rep32)
  have i0: "[] = map (uuid4_hex ex_lib) [0..<nat (- 1)]" by simp
  have "create_filelist ex_lib 2 ex_state =
          (if int (length ?ids) = 2 then Inr (ex_state\<lparr>files := (files ex_state)(filelist_path \<mapsto> StrArr ?ids)\<rparr>)
           else Inl (AssertionError, ex_state\<lparr>files := (files ex_state)(filelist_path \<mapsto> StrArr ?ids)\<rparr>))"
    using create_filelist_self_check[OF c i2 refl] by blast
  moreover have "int (length ?ids) = 2" by simp
  moreover have "create_filelist ex_lib (- 1) ex_state =
          (if int (length ([]::string list)) = - 1 then Inr (ex_state\<lparr>files := (files ex_state)(filelist_path \<mapsto> StrArr [])\<rparr>)
           else Inl (AssertionError, ex_state\<lparr>files := (files ex_state)(filelist_path \<mapsto> StrArr [])\<rparr>))"
    using create_filelist_self_check[OF c i0 refl] by blast
  moreover have "int (length ([]::string list)) \<noteq> - 1" by simp
  ultimately show ?thesis using c by (simp only: if_True if_False simp_thms)
qed









text \<open>
  C10. In the create phase of the flat, two-level and four-level layouts the array stored
  for the identifier of index \<open>k\<close> is \<open>nth_array L sz (seed L 515) k\<close>: it is fixed by
  \<open>k\<close>, the seed, the size and the library alone. So two runs on two lists of distinct
  identifiers of the same length, from any two states, store the same array (content and
  length) at matching positions; the identifiers decide only the path names.
\<close>

theorem content_ignores_identifier:
  assumes "uniform L" "0 \<le> sz" "lay \<noteq> Memmap"
    and "ready st1 ids1" "distinct ids1" "ready st2 ids2" "distinct ids2"
    and "length ids1 = length ids2"
  shows "\<exists>st1' st2'. create_files lay L sz st1 = Inr st1' \<and> create_files lay L sz st2 = Inr st2' \<and>
           (\<forall>k<length ids1. \<exists>p1 p2 arr.
              create_path lay (ids1 ! k) = Inr p1 \<and> create_path lay (ids2 ! k) = Inr p2 \<and>
              files st1' p1 = Some (FloatArr arr) \<and> files st2' p2 = Some (FloatArr arr) \<and>
              arr = nth_array L sz (seed L 515) k)"
proof -
  obtain st1' where a: "create_files lay L sz st1 = Inr st1'"
    "\<forall>k<length ids1. \<exists>p. create_path lay (ids1 ! k) = Inr p \<and>
               files st1' p = Some (FloatArr (nth_array L sz (seed L 515) k))"
    by (rule created_nth[OF assms(1,2,4,3,5)])
  obtain st2' where b: "create_files lay L sz st2 = Inr st2'"
    "\<forall>k<length ids2. \<exists>p. create_path lay (ids2 ! k) = Inr p \<and>
               files st2' p = Some (FloatArr (nth_array L sz (seed L 515) k))"
    by (rule created_nth[OF assms(1,2,6,3,7)])
  have "\<exists>p1 p2 arr.
              create_path lay (ids1 ! k) = Inr p1 \<and> create_path lay (ids2 ! k) = Inr p2 \<and>
              files st1' p1 = Some (FloatArr arr) \<and> files st2' p2 = Some (FloatArr arr) \<and>
              arr = nth_array L sz (seed L 515) k" if k: "k < length ids1" for k
  proof -
    obtain p1 where p1: "create_path lay (ids1 ! k) = Inr p1"
      "files st1' p1 = Some (FloatArr (nth_array L sz (seed L 515) k))"
      using a(2) k by blast
    have "k < length ids2" using k assms(8) by simp
    then obtain p2 where p2: "create_path lay (ids2 ! k) = Inr p2"
      "files st2' p2 = Some (FloatArr (nth_array L sz (seed L 515) k))"
      using b(2) by blast
    show ?thesis
      by (intro exI[of _ p1] exI[of _ p2] exI[of _ "nth_array L sz (seed L 515) k"] conjI p1 p2 refl)
  qed
  then show ?thesis using a(1) b(1) by blast
qed

theorem content_ignores_identifier_witness:
  "uniform ex_lib \<and> (0::int) \<le> 8 \<and> Two_level \<noteq> Memmap \<and>
   ready ex_state [ex_id1, ex_id2] \<and> distinct [ex_id1, ex_id2] \<and>
   ready ex_state2 [ex_id2, ex_id1] \<and> distinct [ex_id2, ex_id1] \<and>
   length [ex_id1, ex_id2] = length [ex_id2, ex_id1] \<and>
   (\<exists>st1' st2'. create_files Two_level ex_lib 8 ex_state = Inr st1' \<and>
      create_files Two_level ex_lib 8 ex_state2 = Inr st2' \<and>
      (\<forall>k<length [ex_id1, ex_id2]. \<exists>p1 p2 arr.
         create_path Two_level ([ex_id1, ex_id2] ! k) = Inr p1 \<and>
         create_path Two_level ([ex_id2, ex_id1] ! k) = Inr p2 \<and>
         files st1' p1 = Some (FloatArr arr) \<and> files st2' p2 = Some (FloatArr arr) \<and>
         arr = nth_array ex_lib 8 (seed ex_lib 515) k))"
proof -
  have h: "(0::int) \<le> 8" "Two_level \<noteq> Memmap" "length [ex_id1, ex_id2] = length [ex_id2, ex_id1]"
    by simp_all
  note t = content_ignores_identifier[OF ex_lib_uniform h(1,2) ex_state_ready ex_ids_distinct(1)
      ex_state2_ready ex_ids_distinct(2) h(3)]
  show ?thesis
    by (intro conjI ex_lib_uniform h ex_state_ready ex_ids_distinct ex_state2_ready t)
qed

text \<open>
  C5. Two runs of the create phase of one layout with the same size, from any two states
  that hold the same stored identifier list, whatever their generator states and their
  other files, both succeed and leave the same content at the location of every
  identifier: the same array, hence the same length, in the per-file layouts, and the same
  block in the memory-mapped layout (created for a positive size and a non-empty list).
  The seed is the constant 515 of the source.
\<close>

theorem create_deterministic:
  assumes "uniform L" "0 \<le> sz" "ready st1 ids" "ready st2 ids"
    and "lay = Memmap \<longrightarrow> 0 < sz \<and> ids \<noteq> []"
  shows "\<exists>st1' st2'. create_files lay L sz st1 = Inr st1' \<and> create_files lay L sz st2 = Inr st2' \<and>
           (\<forall>name\<in>set ids. \<exists>p c. create_path lay name = Inr p \<and>
              files st1' p = Some c \<and> files st2' p = Some c)"
proof (cases "lay = Memmap")
  case True
  then have h: "0 < sz" "ids \<noteq> []" using assms(5) by blast+
  obtain st1' where a: "create_files Memmap L sz st1 = Inr st1'"
    "files st1' = (files st1)(memmap_path \<mapsto> Raw (filled L sz (length ids)))"
    by (rule created_memmap[OF h(1) assms(3) h(2)])
  obtain st2' where b: "create_files Memmap L sz st2 = Inr st2'"
    "files st2' = (files st2)(memmap_path \<mapsto> Raw (filled L sz (length ids)))"
    by (rule created_memmap[OF h(1) assms(4) h(2)])
  have "\<forall>name\<in>set ids. \<exists>p c. create_path Memmap name = Inr p \<and>
              files st1' p = Some c \<and> files st2' p = Some c"
    by (simp add: create_path_def a(2) b(2))
  then show ?thesis using a(1) b(1) True by blast
next
  case False
  obtain st1' where a: "create_files lay L sz st1 = Inr st1'"
    "files st1' = files st1 ++ written L (create_path lay) sz ids (seed L 515)"
    using created_files[OF assms(1,2,3) False] by metis
  obtain st2' where b: "create_files lay L sz st2 = Inr st2'"
    "files st2' = files st2 ++ written L (create_path lay) sz ids (seed L 515)"
    using created_files[OF assms(1,2,4) False] by metis
  have "\<forall>name\<in>set ids. \<exists>p c. create_path lay name = Inr p \<and>
              files st1' p = Some c \<and> files st2' p = Some c"
  proof
    fix name assume n: "name \<in> set ids"
    obtain p k where p: "create_path lay name = Inr p"
      "written L (create_path lay) sz ids (seed L 515) p =
         Some (FloatArr (nth_array L sz (seed L 515) k))"
      using written_of_name[OF create_paths_exist[OF assms(3), of lay] n, of L sz "seed L 515"]
      by (elim exE conjE)
    have "files st1' p = Some (FloatArr (nth_array L sz (seed L 515) k))"
      unfolding a(2) using p(2) by (rule map_add_find_right)
    moreover have "files st2' p = Some (FloatArr (nth_array L sz (seed L 515) k))"
      unfolding b(2) using p(2) by (rule map_add_find_right)
    ultimately show "\<exists>p c. create_path lay name = Inr p \<and>
              files st1' p = Some c \<and> files st2' p = Some c"
      using p(1) by blast
  qed
  then show ?thesis using a(1) b(1) by blast
qed

theorem create_deterministic_witness:
  "uniform ex_lib \<and> (0::int) \<le> 8 \<and> ready ex_state [ex_id1, ex_id2] \<and>
   ready ex_state3 [ex_id1, ex_id2] \<and>
   (\<exists>st1' st2'. create_files Flat ex_lib 8 ex_state = Inr st1' \<and>
      create_files Flat ex_lib 8 ex_state3 = Inr st2' \<and>
      (\<forall>name\<in>set [ex_id1, ex_id2]. \<exists>p c. create_path Flat name = Inr p \<and>
         files st1' p = Some c \<and> files st2' p = Some c)) \<and>
   (0::int) < 8 \<and> [ex_id1, ex_id2] \<noteq> [] \<and>
   (\<exists>st1' st2'. create_files Memmap ex_lib 8 ex_state = Inr st1' \<and>
      create_files Memmap ex_lib 8 ex_state3 = Inr st2' \<and>
      (\<forall>name\<in>set [ex_id1, ex_id2]. \<exists>p c. create_path Memmap name = Inr p \<and>
         files st1' p = Some c \<and> files st2' p = Some c))"
proof -
  have h: "(0::int) \<le> 8" "(0::int) < 8" "[ex_id1, ex_id2] \<noteq> []" by simp_all
  have f: "Flat = Memmap \<longrightarrow> (0::int) < 8 \<and> [ex_id1, ex_id2] \<noteq> []" by simp
  have m: "Memmap = Memmap \<longrightarrow> (0::int) < 8 \<and> [ex_id1, ex_id2] \<noteq> []" by simp
  note a = create_deterministic[OF ex_lib_uniform h(1) ex_state_ready ex_state3_ready f]
  note b = create_deterministic[OF ex_lib_uniform h(1) ex_state_ready ex_state3_ready m]
  show ?thesis
    by (intro conjI ex_lib_uniform h ex_state_ready ex_state3_ready a b)
qed







end
